theory Spec2Isabelle
  imports Main "HOL-Library.Sublist"
begin

section \<open>Python values and dictionaries\<close>

text \<open>
  The module \<^verbatim>\<open>litellm/llms/openai.py\<close> works on plain Python values: request
  parameters, message dictionaries and status codes. \<open>pyval\<close> is the fragment of them
  that the modelled functions inspect. \<open>VObject n\<close> is a reference to some other object
  (identified by \<open>n\<close>) whose content the module never looks at.
\<close>

datatype pyval =
    VNone
  | VBool bool
  | VInt int
  | VStr string
  | VList "pyval list"
  | VObject nat

text \<open>
  Python's \<^verbatim>\<open>==\<close> on these values: \<^verbatim>\<open>bool\<close> is a subclass of \<^verbatim>\<open>int\<close>, so
  \<^verbatim>\<open>True == 1\<close> holds; lists are compared element by element; everything else is
  equal only to itself.
\<close>

fun py_eq :: "pyval \<Rightarrow> pyval \<Rightarrow> bool"
  and py_eq_list :: "pyval list \<Rightarrow> pyval list \<Rightarrow> bool" where
  "py_eq VNone b = (b = VNone)"
| "py_eq (VBool a) b =
     (case b of VBool c \<Rightarrow> a = c | VInt i \<Rightarrow> (if a then 1 else 0) = i | _ \<Rightarrow> False)"
| "py_eq (VInt i) b =
     (case b of VInt j \<Rightarrow> i = j | VBool c \<Rightarrow> i = (if c then 1 else 0) | _ \<Rightarrow> False)"
| "py_eq (VStr s) b = (b = VStr s)"
| "py_eq (VList xs) b = (case b of VList ys \<Rightarrow> py_eq_list xs ys | _ \<Rightarrow> False)"
| "py_eq (VObject n) b = (b = VObject n)"
| "py_eq_list [] ys = (ys = [])"
| "py_eq_list (x # xs) ys =
     (case ys of [] \<Rightarrow> False | y # ys' \<Rightarrow> py_eq x y \<and> py_eq_list xs ys')"

text \<open>
  A Python \<^verbatim>\<open>dict\<close> with string keys is an association list in insertion order.
  \<open>dict_set\<close> is \<^verbatim>\<open>d[k] = v\<close>: an existing key keeps its position and gets the new
  value, a new key is appended.
\<close>

type_synonym 'v dict = "(string \<times> 'v) list"

fun dict_set :: "'v dict \<Rightarrow> string \<Rightarrow> 'v \<Rightarrow> 'v dict" where
  "dict_set [] k v = [(k, v)]"
| "dict_set ((k', v') # d) k v =
     (if k' = k then (k, v) # d else (k', v') # dict_set d k v)"

text \<open>\<^verbatim>\<open>needle in haystack\<close> on two strings is the substring test.\<close>

definition py_in_str :: "string \<Rightarrow> string \<Rightarrow> bool" where
  "py_in_str needle haystack = sublist needle haystack"

text \<open>\<^verbatim>\<open>s.startswith(p)\<close>.\<close>

definition startswith :: "string \<Rightarrow> string \<Rightarrow> bool" where
  "startswith s p = prefix p s"

section \<open>OpenAIConfig: the parameter allow-list\<close>

text \<open>\<^verbatim>\<open>base_params\<close> of \<^verbatim>\<open>OpenAIConfig.get_supported_openai_params\<close>.\<close>

definition base_params :: "string list" where
  "base_params =
     [''frequency_penalty'', ''logit_bias'', ''logprobs'', ''top_logprobs'',
      ''max_tokens'', ''n'', ''presence_penalty'', ''seed'', ''stop'', ''stream'',
      ''stream_options'', ''temperature'', ''top_p'', ''tools'', ''tool_choice'',
      ''user'', ''function_call'', ''functions'', ''max_retries'', ''extra_headers'']"

definition get_supported_openai_params :: "string \<Rightarrow> string list" where
  "get_supported_openai_params model =
     (let model_specific_params =
            (if model \<noteq> ''gpt-3.5-turbo-16k'' \<and> model \<noteq> ''gpt-4''
             then [] @ [''response_format''] else [])
      in base_params @ model_specific_params)"

text \<open>
  \<^verbatim>\<open>OpenAIConfig.map_openai_params\<close>: the loop over
  \<^verbatim>\<open>non_default_params.items()\<close> writes into \<^verbatim>\<open>optional_params\<close>, which is
  returned.
\<close>

fun map_openai_params_loop :: "string list \<Rightarrow> pyval dict \<Rightarrow> pyval dict \<Rightarrow> pyval dict" where
  "map_openai_params_loop supported [] optional_params = optional_params"
| "map_openai_params_loop supported ((param, value) # items) optional_params =
     map_openai_params_loop supported items
       (if param \<in> set supported then dict_set optional_params param value
        else optional_params)"

definition map_openai_params :: "pyval dict \<Rightarrow> pyval dict \<Rightarrow> string \<Rightarrow> pyval dict" where
  "map_openai_params non_default_params optional_params model =
     (let supported_openai_params = get_supported_openai_params model
      in map_openai_params_loop supported_openai_params non_default_params optional_params)"

section \<open>Provider configuration classes\<close>

text \<open>
  An entry of a class's \<^verbatim>\<open>__dict__\<close> is a function, a built-in function, a
  \<^verbatim>\<open>classmethod\<close> object, a \<^verbatim>\<open>staticmethod\<close> object, or any other value.
\<close>

datatype attr = Function | BuiltinFunction | ClassMethod | StaticMethod | Value pyval

text \<open>
  \<^verbatim>\<open>isinstance(v, (types.FunctionType, types.BuiltinFunctionType, classmethod,
  staticmethod))\<close>.
\<close>

fun isinstance_function :: "attr \<Rightarrow> bool" where
  "isinstance_function (Value v) = False"
| "isinstance_function a = True"

text \<open>
  \<^verbatim>\<open>get_config\<close>, the same class method in every configuration class: the
  dictionary comprehension over \<^verbatim>\<open>cls.__dict__.items()\<close>.
\<close>

definition get_config :: "attr dict \<Rightarrow> attr dict" where
  "get_config cls_dict =
     filter (\<lambda>(k, v). \<not> startswith k ''__'' \<and> \<not> isinstance_function v \<and> v \<noteq> Value VNone)
       cls_dict"

text \<open>
  The constructors. \<^verbatim>\<open>locals().copy()\<close> at the start of \<^verbatim>\<open>__init__\<close> holds
  \<^verbatim>\<open>self\<close> and then every parameter in the order of the signature; a parameter the
  caller did not pass has its default \<^verbatim>\<open>None\<close>. \<open>arguments\<close> are the keyword
  arguments of the call. The loop then runs \<^verbatim>\<open>setattr(self.__class__, key, value)\<close>,
  a write to the dictionary of the class.
\<close>

definition locals_copy :: "string list \<Rightarrow> pyval dict \<Rightarrow> pyval dict" where
  "locals_copy params arguments =
     (''self'', VObject 0) #
     map (\<lambda>p. (p, case map_of arguments p of Some v \<Rightarrow> v | None \<Rightarrow> VNone)) params"

fun init_loop :: "pyval dict \<Rightarrow> attr dict \<Rightarrow> attr dict" where
  "init_loop [] cls_dict = cls_dict"
| "init_loop ((key, value) # items) cls_dict =
     init_loop items
       (if key \<noteq> ''self'' \<and> value \<noteq> VNone then dict_set cls_dict key (Value value)
        else cls_dict)"

definition MistralConfig_params :: "string list" where
  "MistralConfig_params =
     [''temperature'', ''top_p'', ''max_tokens'', ''tools'', ''tool_choice'',
      ''random_seed'', ''safe_prompt'', ''response_format'']"

definition OpenAIConfig_params :: "string list" where
  "OpenAIConfig_params =
     [''frequency_penalty'', ''function_call'', ''functions'', ''logit_bias'',
      ''max_tokens'', ''n'', ''presence_penalty'', ''stop'', ''temperature'', ''top_p'',
      ''response_format'']"

text \<open>
  The dictionaries of the two classes as the class statements leave them. The values
  under the names with two leading underscores (module name, docstring, annotations,
  the descriptors of \<^verbatim>\<open>__dict__\<close> and \<^verbatim>\<open>__weakref__\<close>) are objects that no
  function of the module reads.
\<close>

definition MistralConfig_class :: "attr dict" where
  "MistralConfig_class =
     [(''__module__'', Value (VStr ''litellm.llms.openai'')),
      (''__doc__'', Value (VObject 1)),
      (''__annotations__'', Value (VObject 2)),
      (''temperature'', Value VNone),
      (''top_p'', Value VNone),
      (''max_tokens'', Value VNone),
      (''tools'', Value VNone),
      (''tool_choice'', Value VNone),
      (''random_seed'', Value VNone),
      (''safe_prompt'', Value VNone),
      (''response_format'', Value VNone),
      (''__init__'', Function),
      (''get_config'', ClassMethod),
      (''get_supported_openai_params'', Function),
      (''_map_tool_choice'', Function),
      (''map_openai_params'', Function),
      (''__dict__'', Value (VObject 3)),
      (''__weakref__'', Value (VObject 4))]"

definition OpenAIConfig_class :: "attr dict" where
  "OpenAIConfig_class =
     [(''__module__'', Value (VStr ''litellm.llms.openai'')),
      (''__doc__'', Value (VObject 5)),
      (''__annotations__'', Value (VObject 6)),
      (''frequency_penalty'', Value VNone),
      (''function_call'', Value VNone),
      (''functions'', Value VNone),
      (''logit_bias'', Value VNone),
      (''max_tokens'', Value VNone),
      (''n'', Value VNone),
      (''presence_penalty'', Value VNone),
      (''stop'', Value VNone),
      (''temperature'', Value VNone),
      (''top_p'', Value VNone),
      (''response_format'', Value VNone),
      (''__init__'', Function),
      (''get_config'', ClassMethod),
      (''get_supported_openai_params'', Function),
      (''map_openai_params'', Function),
      (''__dict__'', Value (VObject 7)),
      (''__weakref__'', Value (VObject 8))]"

text \<open>
  The state that outlives a call: the dictionaries of the configuration classes.
  Constructing an instance runs the loop of \<^verbatim>\<open>__init__\<close> on the dictionary of the
  instance's class.
\<close>

record classes =
  MistralConfig :: "attr dict"
  OpenAIConfig :: "attr dict"

definition initial_classes :: classes where
  "initial_classes = \<lparr>MistralConfig = MistralConfig_class, OpenAIConfig = OpenAIConfig_class\<rparr>"

definition MistralConfig_init :: "pyval dict \<Rightarrow> classes \<Rightarrow> classes" where
  "MistralConfig_init arguments st =
     st\<lparr>MistralConfig :=
          init_loop (locals_copy MistralConfig_params arguments) (MistralConfig st)\<rparr>"

definition OpenAIConfig_init :: "pyval dict \<Rightarrow> classes \<Rightarrow> classes" where
  "OpenAIConfig_init arguments st =
     st\<lparr>OpenAIConfig :=
          init_loop (locals_copy OpenAIConfig_params arguments) (OpenAIConfig st)\<rparr>"

section \<open>Exceptions\<close>

text \<open>
  What a Python \<^verbatim>\<open>raise\<close> can carry. An instance of \<^verbatim>\<open>Exception\<close> is either the
  module's own \<^verbatim>\<open>OpenAIError(status_code, message)\<close> or any other exception: its class
  name, its \<^verbatim>\<open>status_code\<close> attribute when it has one (the vendor client's HTTP errors
  do), and its text \<^verbatim>\<open>str(e)\<close>. \<^verbatim>\<open>OpenAIError.__init__\<close> passes \<^verbatim>\<open>message\<close> to
  \<^verbatim>\<open>Exception.__init__\<close>, so the text of an \<^verbatim>\<open>OpenAIError\<close> is its message.
  \<open>PyBaseException\<close> is an instance of \<^verbatim>\<open>BaseException\<close> that is not an
  \<^verbatim>\<open>Exception\<close>, such as \<^verbatim>\<open>KeyboardInterrupt\<close> or \<^verbatim>\<open>SystemExit\<close>, with its class
  name and its text: a clause \<^verbatim>\<open>except Exception\<close> does not catch it.
\<close>

datatype py_exn =
    OpenAIError pyval string
  | PyException string "pyval option" string
  | PyBaseException string string

fun str_of :: "py_exn \<Rightarrow> string" where
  "str_of (OpenAIError status_code message) = message"
| "str_of (PyException cls status_code text) = text"
| "str_of (PyBaseException cls text) = text"

text \<open>\<^verbatim>\<open>hasattr(e, "status_code")\<close> and \<^verbatim>\<open>e.status_code\<close>.\<close>

fun status_code_attr :: "py_exn \<Rightarrow> pyval option" where
  "status_code_attr (OpenAIError status_code message) = Some status_code"
| "status_code_attr (PyException cls status_code text) = status_code"
| "status_code_attr (PyBaseException cls text) = None"

text \<open>\<^verbatim>\<open>isinstance(e, Exception)\<close>: what \<^verbatim>\<open>except Exception\<close> catches.\<close>

fun is_Exception :: "py_exn \<Rightarrow> bool" where
  "is_Exception (PyBaseException cls text) = False"
| "is_Exception e = True"

definition IndexError :: py_exn where
  "IndexError = PyException ''IndexError'' None ''list index out of range''"

definition KeyError :: "string \<Rightarrow> py_exn" where
  "KeyError k = PyException ''KeyError'' None ([CHR 0x27] @ k @ [CHR 0x27])"

section \<open>Rewriting the message list\<close>

text \<open>A chat message is a dictionary; \<^verbatim>\<open>m["role"]\<close> raises \<^verbatim>\<open>KeyError\<close> without the key.\<close>

type_synonym message = "pyval dict"

definition getitem :: "message \<Rightarrow> string \<Rightarrow> py_exn + pyval" where
  "getitem m k = (case map_of m k of None \<Rightarrow> Inl (KeyError k) | Some v \<Rightarrow> Inr v)"

definition blank_message :: "string \<Rightarrow> message" where
  "blank_message role = [(''role'', VStr role), (''content'', VStr [])]"

text \<open>
  The loop \<^verbatim>\<open>for i in range(len(messages) - 1)\<close> of the first handler branch of
  \<^verbatim>\<open>OpenAIChatCompletion.completion\<close>: it appends \<^verbatim>\<open>messages[i]\<close> and, when the
  roles of \<^verbatim>\<open>messages[i]\<close> and \<^verbatim>\<open>messages[i + 1]\<close> are equal, a blank message of
  role \<^verbatim>\<open>"assistant"\<close> after a \<^verbatim>\<open>"user"\<close> message and of role \<^verbatim>\<open>"user"\<close> after
  any other. The list has no iteration when it has fewer than two messages.
\<close>

fun reformat_loop :: "message list \<Rightarrow> py_exn + message list" where
  "reformat_loop (m # m' # ms) =
     (case getitem m ''role'' of
        Inl e \<Rightarrow> Inl e
      | Inr r \<Rightarrow>
          (case getitem m' ''role'' of
             Inl e \<Rightarrow> Inl e
           | Inr r' \<Rightarrow>
               (case reformat_loop (m' # ms) of
                  Inl e \<Rightarrow> Inl e
                | Inr new_messages \<Rightarrow>
                    Inr (m #
                         (if py_eq r r'
                          then (if py_eq r (VStr ''user'')
                                then [blank_message ''assistant'']
                                else [blank_message ''user''])
                          else []) @ new_messages))))"
| "reformat_loop ms = Inr []"

text \<open>
  After the loop, \<^verbatim>\<open>new_messages.append(messages[-1])\<close>: an \<^verbatim>\<open>IndexError\<close> on the
  empty list.
\<close>

definition reformat_messages :: "message list \<Rightarrow> py_exn + message list" where
  "reformat_messages messages =
     (case reformat_loop messages of
        Inl e \<Rightarrow> Inl e
      | Inr new_messages \<Rightarrow>
          (case messages of
             [] \<Rightarrow> Inl IndexError
           | _ \<Rightarrow> Inr (new_messages @ [last messages])))"

text \<open>
  The body of the handler \<^verbatim>\<open>except Exception as e\<close> inside the loop of
  \<^verbatim>\<open>completion\<close>, for an exception \<open>e\<close> that the clause has caught: it gives the
  messages for the next attempt, or raises. (\<^verbatim>\<open>print_verbose\<close> has its default
  \<^verbatim>\<open>None\<close>.)
\<close>

definition handle_exception :: "py_exn \<Rightarrow> message list option \<Rightarrow> py_exn + message list option" where
  "handle_exception e messages =
     (if (py_in_str ''Conversation roles must alternate user/assistant'' (str_of e)
          \<or> py_in_str ''user and assistant roles should be alternating'' (str_of e))
         \<and> messages \<noteq> None
      then (case reformat_messages (the messages) of
              Inl e' \<Rightarrow> Inl e'
            | Inr new_messages \<Rightarrow> Inr (Some new_messages))
      else if py_in_str ''Last message must have role `user`'' (str_of e) \<and> messages \<noteq> None
      then Inr (Some (the messages @ [blank_message ''user'']))
      else Inl e)"

section \<open>OpenAIChatCompletion.completion\<close>

text \<open>
  What \<^verbatim>\<open>completion\<close> reads of its arguments: \<open>arg_timeout_ok\<close> is the test that
  \<^verbatim>\<open>timeout\<close> is a \<^verbatim>\<open>float\<close> or an \<^verbatim>\<open>httpx.Timeout\<close>, \<open>arg_acompletion\<close> is
  \<^verbatim>\<open>acompletion is True\<close>, \<open>arg_stream\<close> is the truth value of
  \<^verbatim>\<open>optional_params.get("stream", False)\<close>, \<open>arg_max_retries_is_int\<close> is
  \<^verbatim>\<open>isinstance(max_retries, int)\<close> for the popped \<^verbatim>\<open>max_retries\<close> (default 2), and
  \<open>arg_client_is_None\<close> is \<^verbatim>\<open>client is None\<close>.
\<close>

record completion_args =
  arg_model :: "string option"
  arg_messages :: "message list option"
  arg_timeout_ok :: bool
  arg_custom_llm_provider :: "string option"
  arg_acompletion :: bool
  arg_stream :: bool
  arg_max_retries_is_int :: bool
  arg_client_is_None :: bool

text \<open>
  The code that \<^verbatim>\<open>completion\<close> calls and this module does not define: the prompt
  factory, the vendor client and the logging object. Each may raise; the natural number
  is the index of the attempt, so that a call may fail once and succeed later.
  \<^verbatim>\<open>self.acompletion\<close> and \<^verbatim>\<open>self.async_streaming\<close> are \<^verbatim>\<open>async def\<close>: calling
  them only creates the coroutine.
\<close>

record ('resp, 'r) env =
  prompt_factory :: "string \<Rightarrow> message list \<Rightarrow> string \<Rightarrow> py_exn + message list option"
  async_streaming :: "message list option \<Rightarrow> 'r"
  acompletion :: "message list option \<Rightarrow> 'r"
  streaming :: "nat \<Rightarrow> message list option \<Rightarrow> py_exn + 'r"
  OpenAI :: "nat \<Rightarrow> py_exn option"
  pre_call :: "nat \<Rightarrow> message list option \<Rightarrow> py_exn option"
  create :: "nat \<Rightarrow> message list option \<Rightarrow> py_exn + 'resp"
  post_call :: "nat \<Rightarrow> 'resp \<Rightarrow> py_exn option"
  convert_to_model_response_object :: "'resp \<Rightarrow> py_exn + 'r"
  format_exc :: "py_exn \<Rightarrow> string"

datatype 'r outcome = Return 'r | ReturnNone | Raise py_exn

text \<open>The body of the inner \<^verbatim>\<open>try\<close>, attempt \<open>i\<close>.\<close>

definition try_body ::
  "('resp, 'r) env \<Rightarrow> completion_args \<Rightarrow> nat \<Rightarrow> message list option \<Rightarrow> py_exn + 'r" where
  "try_body env a i messages =
     (if arg_acompletion a then
        (if arg_stream a then Inr (async_streaming env messages)
         else Inr (acompletion env messages))
      else if arg_stream a then streaming env i messages
      else if \<not> arg_max_retries_is_int a
        then Inl (OpenAIError (VInt 422) ''max retries must be an int'')
      else
        (case (if arg_client_is_None a then OpenAI env i else None) of
           Some e \<Rightarrow> Inl e
         | None \<Rightarrow>
             (case pre_call env i messages of
                Some e \<Rightarrow> Inl e
              | None \<Rightarrow>
                  (case create env i messages of
                     Inl e \<Rightarrow> Inl e
                   | Inr response \<Rightarrow>
                       (case post_call env i response of
                          Some e \<Rightarrow> Inl e
                        | None \<Rightarrow> convert_to_model_response_object env response)))))"

text \<open>
  The loop \<^verbatim>\<open>for _ in range(2)\<close>, with \<open>n\<close> iterations left. The second component
  lists the message lists of the attempts made, one entry for each time the inner
  \<^verbatim>\<open>try\<close> is entered. The clause \<^verbatim>\<open>except Exception as e\<close> runs the handler for an
  instance of \<^verbatim>\<open>Exception\<close>; anything else that the body raises leaves the loop as it
  is. Leaving the loop without a \<^verbatim>\<open>return\<close> ends the function, which then returns
  \<^verbatim>\<open>None\<close>.
\<close>

fun retry_loop ::
  "('resp, 'r) env \<Rightarrow> completion_args \<Rightarrow> nat \<Rightarrow> nat \<Rightarrow> message list option \<Rightarrow>
   message list option list \<Rightarrow> 'r outcome \<times> message list option list" where
  "retry_loop env a 0 i messages attempts = (ReturnNone, attempts)"
| "retry_loop env a (Suc n) i messages attempts =
     (case try_body env a i messages of
        Inr r \<Rightarrow> (Return r, attempts @ [messages])
      | Inl e \<Rightarrow>
          (if is_Exception e then
             (case handle_exception e messages of
                Inl e' \<Rightarrow> (Raise e', attempts @ [messages])
              | Inr messages' \<Rightarrow>
                  retry_loop env a n (Suc i) messages' (attempts @ [messages]))
           else (Raise e, attempts @ [messages])))"

text \<open>
  The statements of the outer \<^verbatim>\<open>try\<close> before the loop. The two assignments there
  (the headers into \<^verbatim>\<open>optional_params["extra_headers"]\<close>, the provider and model name
  into \<^verbatim>\<open>model_response.model\<close>) change nothing that the loop reads.
\<close>

definition prepare_messages ::
  "('resp, 'r) env \<Rightarrow> completion_args \<Rightarrow> py_exn + message list option" where
  "prepare_messages env a =
     (if arg_model a = None \<or> arg_messages a = None
        then Inl (OpenAIError (VInt 422) ''Missing model or messages'')
      else if \<not> arg_timeout_ok a
        then Inl (OpenAIError (VInt 422) ''Timeout needs to be a float or httpx.Timeout'')
      else if arg_custom_llm_provider a \<noteq> Some ''openai'' then
        (case (if arg_custom_llm_provider a = Some ''mistral''
               then prompt_factory env (the (arg_model a)) (the (arg_messages a)) ''mistral''
               else Inr (arg_messages a)) of
           Inl e \<Rightarrow> Inl e
         | Inr messages \<Rightarrow>
             (if arg_custom_llm_provider a = Some ''perplexity'' \<and> messages \<noteq> None
              then prompt_factory env (the (arg_model a)) (the messages) ''perplexity''
              else Inr messages))
      else Inr (arg_messages a))"

definition completion_try ::
  "('resp, 'r) env \<Rightarrow> completion_args \<Rightarrow> 'r outcome \<times> message list option list" where
  "completion_try env a =
     (case prepare_messages env a of
        Inl e \<Rightarrow> (Raise e, [])
      | Inr messages \<Rightarrow> retry_loop env a 2 0 messages [])"

text \<open>
  The two outer handlers: \<^verbatim>\<open>except OpenAIError as e: raise e\<close>, then
  \<^verbatim>\<open>except Exception as e\<close>, which wraps the exception. Neither catches what is not
  an instance of \<^verbatim>\<open>Exception\<close>: it leaves \<^verbatim>\<open>completion\<close> as it is.
\<close>

fun completion_except :: "('resp, 'r) env \<Rightarrow> py_exn \<Rightarrow> py_exn" where
  "completion_except env (OpenAIError status_code message) = OpenAIError status_code message"
| "completion_except env (PyException cls status_code text) =
     (case status_code of
        Some c \<Rightarrow> OpenAIError c (str_of (PyException cls status_code text))
      | None \<Rightarrow> OpenAIError (VInt 500) (format_exc env (PyException cls status_code text)))"
| "completion_except env (PyBaseException cls text) = PyBaseException cls text"

definition completion ::
  "('resp, 'r) env \<Rightarrow> completion_args \<Rightarrow> 'r outcome \<times> message list option list" where
  "completion env a =
     (case completion_try env a of
        (Raise e, attempts) \<Rightarrow> (Raise (completion_except env e), attempts)
      | (result, attempts) \<Rightarrow> (result, attempts))"

section \<open>OpenAITextCompletionConfig: reshaping a text completion\<close>

text \<open>
  Modelled from the spec: the classes \<^verbatim>\<open>TextCompletionResponse\<close>, \<^verbatim>\<open>ModelResponse\<close>,
  \<^verbatim>\<open>Choices\<close> and \<^verbatim>\<open>Message\<close> come from \<^verbatim>\<open>litellm.utils\<close>, which is not part of
  the sources at hand. The spec describes the shared response envelope as
  "choices, usage, id, model", filled from the vendor's response object. A record holds
  the fields that \<^verbatim>\<open>convert_to_chat_model_response_object\<close> reads or writes; the
  constructors \<^verbatim>\<open>Message(content, role)\<close> and
  \<^verbatim>\<open>Choices(finish_reason, index, message)\<close> store their arguments. In the vendor
  payload \<^verbatim>\<open>usage\<close>, \<^verbatim>\<open>id\<close> and \<^verbatim>\<open>model\<close> may be absent (the source tests
  \<^verbatim>\<open>"usage" in response_object\<close>), \<^verbatim>\<open>choices\<close> and the \<^verbatim>\<open>text\<close> and
  \<^verbatim>\<open>finish_reason\<close> of a choice are always there.
\<close>

record TextChoices =
  tc_text :: pyval
  tc_finish_reason :: pyval

record TextCompletionResponse =
  ro_choices :: "TextChoices list"
  ro_usage :: "pyval option"
  ro_id :: "pyval option"
  ro_model :: "pyval option"

record Message =
  msg_content :: pyval
  msg_role :: pyval

record Choices =
  choice_finish_reason :: pyval
  choice_index :: nat
  choice_message :: Message

record ModelResponse =
  mr_choices :: "Choices list"
  mr_usage :: pyval
  mr_id :: pyval
  mr_model :: pyval
  mr_original_response :: "TextCompletionResponse option"

text \<open>The loop \<^verbatim>\<open>for idx, choice in enumerate(response_object["choices"])\<close>.\<close>

fun choice_loop :: "nat \<Rightarrow> TextChoices list \<Rightarrow> Choices list" where
  "choice_loop idx [] = []"
| "choice_loop idx (choice # rest) =
     \<lparr>choice_finish_reason = tc_finish_reason choice,
      choice_index = idx,
      choice_message = \<lparr>msg_content = tc_text choice, msg_role = VStr ''assistant''\<rparr>\<rparr>
     # choice_loop (Suc idx) rest"

definition ValueError :: py_exn where
  "ValueError = PyException ''ValueError'' None ''Error in response object format''"

definition convert_to_chat_model_response_object ::
  "TextCompletionResponse option \<Rightarrow> ModelResponse option \<Rightarrow> py_exn + ModelResponse" where
  "convert_to_chat_model_response_object response_object model_response_object =
     (if response_object = None \<or> model_response_object = None then Inl ValueError
      else
        (let r = the response_object;
             m0 = the model_response_object;
             m1 = m0\<lparr>mr_choices := choice_loop 0 (ro_choices r)\<rparr>;
             m2 = (case ro_usage r of Some u \<Rightarrow> m1\<lparr>mr_usage := u\<rparr> | None \<Rightarrow> m1);
             m3 = (case ro_id r of Some i \<Rightarrow> m2\<lparr>mr_id := i\<rparr> | None \<Rightarrow> m2);
             m4 = (case ro_model r of Some md \<Rightarrow> m3\<lparr>mr_model := md\<rparr> | None \<Rightarrow> m3)
         in Inr (m4\<lparr>mr_original_response := Some r\<rparr>)))"

section \<open>Vocabulary of the claims about the rewrite\<close>

text \<open>
  Two messages have the same role when their \<^verbatim>\<open>"role"\<close> entries are equal in the
  sense of \<^verbatim>\<open>==\<close>.
\<close>

definition same_role :: "message \<Rightarrow> message \<Rightarrow> bool" where
  "same_role m m' = rel_option py_eq (map_of m ''role'') (map_of m' ''role'')"

fun no_adjacent_same_role :: "message list \<Rightarrow> bool" where
  "no_adjacent_same_role (m # m' # ms) = (\<not> same_role m m' \<and> no_adjacent_same_role (m' # ms))"
| "no_adjacent_same_role ms = True"

definition has_role :: "message \<Rightarrow> bool" where
  "has_role m = (map_of m ''role'' \<noteq> None)"

definition empty_content :: "message \<Rightarrow> bool" where
  "empty_content m = (map_of m ''content'' = Some (VStr []))"

text \<open>
  \<open>blanks_inserted original rewritten\<close>: the rewritten list is the original one, every
  message unchanged and in its place in the order, with further messages in between or
  around that all have the content \<^verbatim>\<open>""\<close>.
\<close>

fun blanks_inserted :: "message list \<Rightarrow> message list \<Rightarrow> bool" where
  "blanks_inserted [] [] = True"
| "blanks_inserted (x # xs) [] = False"
| "blanks_inserted [] (y # ys) = (empty_content y \<and> blanks_inserted [] ys)"
| "blanks_inserted (x # xs) (y # ys) =
     ((x = y \<and> blanks_inserted xs ys) \<or> (empty_content y \<and> blanks_inserted (x # xs) ys))"

text \<open>The three vendor phrases that the handler looks for.\<close>

definition roles_must_alternate :: "py_exn \<Rightarrow> bool" where
  "roles_must_alternate e =
     (py_in_str ''Conversation roles must alternate user/assistant'' (str_of e)
      \<or> py_in_str ''user and assistant roles should be alternating'' (str_of e))"

definition last_must_be_user :: "py_exn \<Rightarrow> bool" where
  "last_must_be_user e = py_in_str ''Last message must have role `user`'' (str_of e)"

section \<open>A scripted provider\<close>

text \<open>
  Concrete surroundings for running \<^verbatim>\<open>completion\<close>: a vendor client whose
  \<^verbatim>\<open>chat.completions.create\<close> fails at attempt \<open>i\<close> with the \<open>i\<close>-th exception of a
  script and answers once the script is used up, while every other outside call
  succeeds; and the arguments of a plain synchronous call to OpenAI with that client.
\<close>

definition scripted_env :: "py_exn list \<Rightarrow> (string, string) env" where
  "scripted_env script =
     \<lparr>prompt_factory = (\<lambda>model messages provider. Inr (Some messages)),
      async_streaming = (\<lambda>messages. ''async stream''),
      acompletion = (\<lambda>messages. ''coroutine''),
      streaming = (\<lambda>i messages. Inr ''stream''),
      OpenAI = (\<lambda>i. None),
      pre_call = (\<lambda>i messages. None),
      create = (\<lambda>i messages. if i < length script then Inl (script ! i) else Inr ''response''),
      post_call = (\<lambda>i response. None),
      convert_to_model_response_object = (\<lambda>response. Inr response),
      format_exc = (\<lambda>e. ''Traceback: '' @ str_of e)\<rparr>"

definition sync_args :: "message list \<Rightarrow> completion_args" where
  "sync_args messages =
     \<lparr>arg_model = Some ''gpt-4'',
      arg_messages = Some messages,
      arg_timeout_ok = True,
      arg_custom_llm_provider = Some ''openai'',
      arg_acompletion = False,
      arg_stream = False,
      arg_max_retries_is_int = True,
      arg_client_is_None = False\<rparr>"

definition user_message :: "string \<Rightarrow> message" where
  "user_message content = [(''role'', VStr ''user''), (''content'', VStr content)]"

definition assistant_message :: "string \<Rightarrow> message" where
  "assistant_message content = [(''role'', VStr ''assistant''), (''content'', VStr content)]"

definition roles_error :: py_exn where
  "roles_error =
     PyException ''BadRequestError'' (Some (VInt 400))
       ''Error code: 400 - Conversation roles must alternate user/assistant/user/assistant''"

definition last_role_error :: py_exn where
  "last_role_error =
     PyException ''BadRequestError'' (Some (VInt 400))
       ''Error code: 400 - Last message must have role `user`''"

definition rate_limit_error :: py_exn where
  "rate_limit_error = PyException ''RateLimitError'' (Some (VInt 429)) ''Error code: 429''"

definition connection_error :: py_exn where
  "connection_error = PyException ''APIConnectionError'' None ''Connection error.''"

definition keyboard_interrupt :: py_exn where
  "keyboard_interrupt = PyBaseException ''KeyboardInterrupt'' []"

section \<open>Properties of the allow-list\<close>

lemma map_of_dict_set: "map_of (dict_set d k v) = (map_of d)(k \<mapsto> v)"
  by (induction d) (auto simp: fun_upd_twist)

lemma keys_dict_set: "fst ` set (dict_set d k v) = insert k (fst ` set d)"
proof (induction d)
  case Nil
  then show ?case by simp
next
  case (Cons kv d)
  then show ?case by (cases kv) (simp add: insert_commute)
qed

lemma distinct_dict_set: "distinct (map fst d) \<Longrightarrow> distinct (map fst (dict_set d k v))"
  by (induction d) (auto simp: keys_dict_set)

lemma map_of_loop:
  "distinct (map fst items) \<Longrightarrow>
   map_of (map_openai_params_loop supported items d) k =
     (if k \<in> set supported \<and> k \<in> fst ` set items then map_of items k else map_of d k)"
proof (induction items arbitrary: d)
  case Nil
  then show ?case by simp
next
  case (Cons it items)
  obtain p v where it: "it = (p, v)" by (cases it)
  from Cons.prems it have p: "p \<notin> fst ` set items" and dist: "distinct (map fst items)"
    by auto
  show ?case
    using Cons.IH [OF dist] p by (auto simp: it map_of_dict_set)
qed

lemma distinct_loop:
  "distinct (map fst d) \<Longrightarrow> distinct (map fst (map_openai_params_loop supported items d))"
  by (induction items arbitrary: d) (auto simp: distinct_dict_set)

text \<open>
  C5, as the code has it. For a \<^verbatim>\<open>non_default_params\<close> dictionary (its keys are
  distinct), the dictionary returned by \<^verbatim>\<open>OpenAIConfig.map_openai_params\<close> maps a key
  that is both supported for the model and present in \<^verbatim>\<open>non_default_params\<close> to its
  value there, replacing any prior entry of \<^verbatim>\<open>optional_params\<close> under that key, and
  maps every other key as \<^verbatim>\<open>optional_params\<close> did before. Keys outside the supported
  list are never added.
\<close>

theorem map_openai_params_allow_list:
  assumes "distinct (map fst non_default_params)"
  shows "map_of (map_openai_params non_default_params optional_params model) k =
           (if k \<in> set (get_supported_openai_params model) \<and> k \<in> fst ` set non_default_params
            then map_of non_default_params k else map_of optional_params k)"
  using assms by (simp add: map_openai_params_def map_of_loop)

text \<open>
  A supported key is copied, an unsupported one is dropped, a prior entry is kept.
\<close>

theorem map_openai_params_allow_list_witness:
  "distinct (map fst [(''temperature'', VInt 2), (''api_key'', VStr ''k'')])
   \<and> map_of (map_openai_params [(''temperature'', VInt 2), (''api_key'', VStr ''k'')]
        [(''n'', VInt 1)] ''gpt-4'') ''temperature'' = Some (VInt 2)
   \<and> map_of (map_openai_params [(''temperature'', VInt 2), (''api_key'', VStr ''k'')]
        [(''n'', VInt 1)] ''gpt-4'') ''api_key'' = None
   \<and> map_of (map_openai_params [(''temperature'', VInt 2), (''api_key'', VStr ''k'')]
        [(''n'', VInt 1)] ''gpt-4'') ''n'' = Some (VInt 1)"
proof -
  have d: "distinct (map fst [(''temperature'', VInt 2), (''api_key'', VStr ''k'')])" by simp
  show ?thesis
    using map_openai_params_allow_list [OF d, of "[(''n'', VInt 1)]" "''gpt-4''" "''temperature''"]
      map_openai_params_allow_list [OF d, of "[(''n'', VInt 1)]" "''gpt-4''" "''api_key''"]
      map_openai_params_allow_list [OF d, of "[(''n'', VInt 1)]" "''gpt-4''" "''n''"]
    by (simp add: get_supported_openai_params_def base_params_def)
qed

text \<open>
  C5 as the claim states it fails where the two dictionaries share a supported key: the
  prior entry of \<^verbatim>\<open>optional_params\<close> is not in the result.
\<close>

theorem prior_entry_overwritten_counterexample:
  "(''temperature'', VInt 1) \<in> set [(''temperature'', VInt 1)]
   \<and> map_openai_params [(''temperature'', VInt 2)] [(''temperature'', VInt 1)] ''gpt-4''
       = [(''temperature'', VInt 2)]
   \<and> (''temperature'', VInt 1) \<notin>
       set (map_openai_params [(''temperature'', VInt 2)] [(''temperature'', VInt 1)] ''gpt-4'')"
  by (simp add: map_openai_params_def get_supported_openai_params_def base_params_def)

text \<open>
  C10. For every model, \<^verbatim>\<open>"response_format"\<close> is in
  \<^verbatim>\<open>get_supported_openai_params(model)\<close> exactly when the model is neither
  \<^verbatim>\<open>"gpt-3.5-turbo-16k"\<close> nor \<^verbatim>\<open>"gpt-4"\<close>, and every base parameter is in the
  returned list whatever the model.
\<close>

theorem response_format_supported_iff:
  "(''response_format'' \<in> set (get_supported_openai_params model)) =
     (model \<noteq> ''gpt-3.5-turbo-16k'' \<and> model \<noteq> ''gpt-4'')
   \<and> set base_params \<subseteq> set (get_supported_openai_params model)
   \<and> ''temperature'' \<in> set (get_supported_openai_params model)
   \<and> ''max_tokens'' \<in> set (get_supported_openai_params model)
   \<and> ''stream'' \<in> set (get_supported_openai_params model)"
  by (simp add: get_supported_openai_params_def base_params_def)

section \<open>Properties of the configuration classes\<close>

lemma map_of_filter_distinct:
  "distinct (map fst d) \<Longrightarrow>
   map_of (filter P d) k =
     (case map_of d k of Some v \<Rightarrow> (if P (k, v) then Some v else None) | None \<Rightarrow> None)"
proof (induction d)
  case Nil
  then show ?case by simp
next
  case (Cons kv d)
  obtain k' v' where kv: "kv = (k', v')" by (cases kv)
  from Cons.prems kv have notin: "k' \<notin> fst ` set d" and dist: "distinct (map fst d)"
    by auto
  from notin have none: "map_of d k' = None"
    by (simp add: map_of_eq_None_iff)
  show ?case
    using Cons.IH [OF dist] none by (auto simp: kv split: option.splits)
qed

lemma map_of_init_loop:
  "distinct (map fst items) \<Longrightarrow>
   map_of (init_loop items cls) k =
     (case map_of items k of
        Some v \<Rightarrow> (if k \<noteq> ''self'' \<and> v \<noteq> VNone then Some (Value v) else map_of cls k)
      | None \<Rightarrow> map_of cls k)"
proof (induction items arbitrary: cls)
  case Nil
  then show ?case by simp
next
  case (Cons it items)
  obtain p v where it: "it = (p, v)" by (cases it)
  from Cons.prems it have p: "p \<notin> fst ` set items" and dist: "distinct (map fst items)"
    by auto
  from p have none: "map_of items p = None"
    by (simp add: map_of_eq_None_iff)
  show ?case
    using Cons.IH [OF dist] none by (auto simp: it map_of_dict_set split: option.splits)
qed

lemma distinct_init_loop:
  "distinct (map fst cls) \<Longrightarrow> distinct (map fst (init_loop items cls))"
  by (induction items arbitrary: cls) (auto simp: distinct_dict_set)

lemma map_of_locals_copy:
  "map_of (locals_copy params arguments) k =
     (if k = ''self'' then Some (VObject 0)
      else if k \<in> set params
        then Some (case map_of arguments k of Some v \<Rightarrow> v | None \<Rightarrow> VNone)
      else None)"
proof -
  have "map_of (map (\<lambda>p. (p, case map_of arguments p of Some v \<Rightarrow> v | None \<Rightarrow> VNone)) params) k =
        (if k \<in> set params
         then Some (case map_of arguments k of Some v \<Rightarrow> v | None \<Rightarrow> VNone) else None)"
    by (induction params) auto
  then show ?thesis by (simp add: locals_copy_def)
qed

lemma distinct_locals_copy:
  "distinct params \<Longrightarrow> ''self'' \<notin> set params \<Longrightarrow>
   distinct (map fst (locals_copy params arguments))"
  by (auto simp: locals_copy_def comp_def)

lemma config_after_init:
  assumes "distinct (map fst cls)" "distinct params" "''self'' \<notin> set params"
    "k \<in> set params" "\<not> startswith k ''__''"
  shows "map_of (get_config (init_loop (locals_copy params arguments) cls)) k =
     (case map_of arguments k of
        Some v \<Rightarrow> (if v \<noteq> VNone then Some (Value v) else map_of (get_config cls) k)
      | None \<Rightarrow> map_of (get_config cls) k)"
proof -
  have d: "distinct (map fst (init_loop (locals_copy params arguments) cls))"
    using assms(1) by (rule distinct_init_loop)
  have k: "k \<noteq> ''self''" using assms(3,4) by auto
  show ?thesis
    unfolding get_config_def
    using assms(4,5) k
    by (simp add: map_of_filter_distinct [OF d] map_of_filter_distinct [OF assms(1)]
        map_of_init_loop [OF distinct_locals_copy [OF assms(2,3)]] map_of_locals_copy
        split: option.splits)
qed

lemma params_facts:
  "distinct MistralConfig_params" "''self'' \<notin> set MistralConfig_params"
  "distinct OpenAIConfig_params" "''self'' \<notin> set OpenAIConfig_params"
  by (simp_all add: MistralConfig_params_def OpenAIConfig_params_def)

lemma params_no_dunder:
  "k \<in> set MistralConfig_params \<Longrightarrow> \<not> startswith k ''__''"
  "k \<in> set OpenAIConfig_params \<Longrightarrow> \<not> startswith k ''__''"
  by (auto simp: MistralConfig_params_def OpenAIConfig_params_def startswith_def)

text \<open>
  C7, as the code has it. \<^verbatim>\<open>__init__\<close> writes every argument that is not \<^verbatim>\<open>None\<close> to
  the attribute of that name of the class itself, which all instances share: after
  constructing a \<^verbatim>\<open>MistralConfig\<close> (an \<^verbatim>\<open>OpenAIConfig\<close>), \<^verbatim>\<open>get_config\<close> gives
  for each declared field the argument passed when it is not \<^verbatim>\<open>None\<close>, and what it
  gave before the construction otherwise. The dictionary of the other class is left as
  it was.
\<close>

theorem init_writes_class_attributes:
  assumes "distinct (map fst (MistralConfig st))" "distinct (map fst (OpenAIConfig st))"
  shows "(k \<in> set MistralConfig_params \<longrightarrow>
            map_of (get_config (MistralConfig (MistralConfig_init arguments st))) k =
              (case map_of arguments k of
                 Some v \<Rightarrow> (if v \<noteq> VNone then Some (Value v)
                            else map_of (get_config (MistralConfig st)) k)
               | None \<Rightarrow> map_of (get_config (MistralConfig st)) k))
       \<and> OpenAIConfig (MistralConfig_init arguments st) = OpenAIConfig st
       \<and> (k \<in> set OpenAIConfig_params \<longrightarrow>
            map_of (get_config (OpenAIConfig (OpenAIConfig_init arguments st))) k =
              (case map_of arguments k of
                 Some v \<Rightarrow> (if v \<noteq> VNone then Some (Value v)
                            else map_of (get_config (OpenAIConfig st)) k)
               | None \<Rightarrow> map_of (get_config (OpenAIConfig st)) k))
       \<and> MistralConfig (OpenAIConfig_init arguments st) = MistralConfig st"
  using config_after_init [OF assms(1) params_facts(1,2), of k arguments]
    config_after_init [OF assms(2) params_facts(3,4), of k arguments]
    params_no_dunder [of k]
  by (simp add: MistralConfig_init_def OpenAIConfig_init_def)

text \<open>The fresh classes, constructed with \<^verbatim>\<open>temperature=1\<close>.\<close>

theorem init_writes_class_attributes_witness:
  "distinct (map fst (MistralConfig initial_classes))
   \<and> distinct (map fst (OpenAIConfig initial_classes))
   \<and> ''temperature'' \<in> set MistralConfig_params
   \<and> ''temperature'' \<in> set OpenAIConfig_params
   \<and> map_of (get_config (MistralConfig (MistralConfig_init [(''temperature'', VInt 1)] initial_classes)))
        ''temperature'' = Some (Value (VInt 1))
   \<and> map_of (get_config (OpenAIConfig (OpenAIConfig_init [(''temperature'', VInt 1)] initial_classes)))
        ''temperature'' = Some (Value (VInt 1))
   \<and> OpenAIConfig (MistralConfig_init [(''temperature'', VInt 1)] initial_classes)
        = OpenAIConfig initial_classes"
proof -
  have d1: "distinct (map fst (MistralConfig initial_classes))"
    by (simp add: initial_classes_def MistralConfig_class_def)
  have d2: "distinct (map fst (OpenAIConfig initial_classes))"
    by (simp add: initial_classes_def OpenAIConfig_class_def)
  have p: "''temperature'' \<in> set MistralConfig_params" "''temperature'' \<in> set OpenAIConfig_params"
    by (simp_all add: MistralConfig_params_def OpenAIConfig_params_def)
  show ?thesis
    using init_writes_class_attributes [OF d1 d2, of "''temperature''" "[(''temperature'', VInt 1)]"] d1 d2 p
    by simp
qed

text \<open>
  C7 as the claim states it fails: \<^verbatim>\<open>MistralConfig(temperature=1)\<close> changes the class
  dictionary, and a later \<^verbatim>\<open>MistralConfig(max_tokens=5)\<close> changes what
  \<^verbatim>\<open>get_config\<close> returns to the holder of the first instance.
\<close>

theorem shared_class_state_counterexample:
  "get_config (MistralConfig (MistralConfig_init [(''temperature'', VInt 1)] initial_classes))
     = [(''temperature'', Value (VInt 1))]
   \<and> get_config (MistralConfig (MistralConfig_init [(''max_tokens'', VInt 5)]
        (MistralConfig_init [(''temperature'', VInt 1)] initial_classes)))
     = [(''temperature'', Value (VInt 1)), (''max_tokens'', Value (VInt 5))]
   \<and> MistralConfig_init [(''temperature'', VInt 1)] initial_classes \<noteq> initial_classes"
  by (simp add: initial_classes_def MistralConfig_class_def OpenAIConfig_class_def get_config_def startswith_def
     MistralConfig_init_def locals_copy_def MistralConfig_params_def)

lemma never_set_stays_None:
  assumes "\<forall>arguments \<in> set argss. map_of arguments f = None \<or> map_of arguments f = Some VNone"
    and "distinct (map fst (MistralConfig st))"
    and "map_of (MistralConfig st) f = Some (Value VNone)"
  shows "distinct (map fst (MistralConfig (fold MistralConfig_init argss st)))
       \<and> map_of (MistralConfig (fold MistralConfig_init argss st)) f = Some (Value VNone)"
  using assms
proof (induction argss arbitrary: st)
  case Nil
  then show ?case by simp
next
  case (Cons arguments argss)
  let ?st = "MistralConfig_init arguments st"
  have d: "distinct (map fst (MistralConfig ?st))"
    using Cons.prems(2) by (simp add: MistralConfig_init_def distinct_init_loop)
  have a: "map_of arguments f = None \<or> map_of arguments f = Some VNone"
    using Cons.prems(1) by simp
  have v: "map_of (MistralConfig ?st) f = Some (Value VNone)"
    using a Cons.prems(3)
    by (auto simp: MistralConfig_init_def map_of_locals_copy
        map_of_init_loop [OF distinct_locals_copy [OF params_facts(1,2)]])
  have rest: "\<forall>arguments \<in> set argss. map_of arguments f = None \<or> map_of arguments f = Some VNone"
    using Cons.prems(1) by simp
  show ?case using Cons.IH [OF rest d v] by simp
qed

lemma None_absent_from_config:
  assumes "distinct (map fst cls)" "map_of cls f = Some (Value VNone)"
  shows "f \<notin> fst ` set (get_config cls)"
proof
  assume "f \<in> fst ` set (get_config cls)"
  then obtain v where "(f, v) \<in> set (get_config cls)" by auto
  then have "(f, v) \<in> set cls" "v \<noteq> Value VNone" by (auto simp: get_config_def)
  with assms show False by simp
qed

text \<open>
  C8. Every declared parameter field of \<^verbatim>\<open>MistralConfig\<close> is \<^verbatim>\<open>None\<close> in the class
  statement. \<^verbatim>\<open>get_config\<close> returns exactly the entries of the class dictionary whose
  name does not start with two underscores and whose value is neither a function, built-in
  function, class method or static method, nor \<^verbatim>\<open>None\<close>. So \<^verbatim>\<open>get_config\<close> of the
  fresh class is empty, and after any sequence of constructions a field that no
  construction was given (or was given as \<^verbatim>\<open>None\<close>) is absent from its result.
\<close>

theorem get_config_only_set_fields:
  "list_all (\<lambda>f. map_of MistralConfig_class f = Some (Value VNone)) MistralConfig_params
   \<and> set (get_config cls_dict) =
       {(k, v). (k, v) \<in> set cls_dict \<and> \<not> startswith k ''__'' \<and> \<not> isinstance_function v
                \<and> v \<noteq> Value VNone}
   \<and> get_config MistralConfig_class = []
   \<and> (f \<in> set MistralConfig_params \<longrightarrow>
        (\<forall>arguments \<in> set argss. map_of arguments f = None \<or> map_of arguments f = Some VNone) \<longrightarrow>
        f \<notin> fst ` set (get_config (MistralConfig (fold MistralConfig_init argss initial_classes))))"
proof -
  have 1: "list_all (\<lambda>f. map_of MistralConfig_class f = Some (Value VNone)) MistralConfig_params"
    by (simp add: MistralConfig_class_def MistralConfig_params_def)
  have 2: "set (get_config cls_dict) =
       {(k, v). (k, v) \<in> set cls_dict \<and> \<not> startswith k ''__'' \<and> \<not> isinstance_function v
                \<and> v \<noteq> Value VNone}"
    by (auto simp: get_config_def)
  have 3: "get_config MistralConfig_class = []"
    by (simp add: MistralConfig_class_def get_config_def startswith_def)
  have d0: "distinct (map fst (MistralConfig initial_classes))"
    by (simp add: initial_classes_def MistralConfig_class_def)
  have 4: "f \<notin> fst ` set (get_config (MistralConfig (fold MistralConfig_init argss initial_classes)))"
    if f: "f \<in> set MistralConfig_params"
      and n: "\<forall>arguments \<in> set argss. map_of arguments f = None \<or> map_of arguments f = Some VNone"
  proof -
    from 1 f have "map_of (MistralConfig initial_classes) f = Some (Value VNone)"
      by (simp add: list_all_iff initial_classes_def)
    from never_set_stays_None [OF n d0 this] show ?thesis
      by (simp add: None_absent_from_config)
  qed
  from 1 2 3 4 show ?thesis by blast
qed

text \<open>
  Two constructions, neither of which sets \<^verbatim>\<open>top_p\<close>: it stays absent.
\<close>

theorem get_config_only_set_fields_witness:
  "''top_p'' \<in> set MistralConfig_params
   \<and> map_of [(''temperature'', VInt 1)] ''top_p'' = None
   \<and> map_of [(''max_tokens'', VInt 5), (''top_p'', VNone)] ''top_p'' = Some VNone
   \<and> ''top_p'' \<notin> fst ` set (get_config (MistralConfig (fold MistralConfig_init
         [[(''temperature'', VInt 1)], [(''max_tokens'', VInt 5), (''top_p'', VNone)]] initial_classes)))"
  using get_config_only_set_fields [of MistralConfig_class "''top_p''"
      "[[(''temperature'', VInt 1)], [(''max_tokens'', VInt 5), (''top_p'', VNone)]]"]
  by (simp add: MistralConfig_params_def)

section \<open>Properties of the message rewrite\<close>

lemma py_eq_VStr_right: "py_eq r (VStr s) = (r = VStr s)"
  by (cases r) auto

lemma reformat_loop_ok:
  "list_all has_role (m # ms) \<Longrightarrow>
   \<exists>new t. reformat_loop (m # ms) = Inr new \<and> new @ [last (m # ms)] = m # t
     \<and> no_adjacent_same_role (m # t) \<and> subseq (m # ms) (m # t)
     \<and> blanks_inserted (m # ms) (m # t)"
proof (induction ms arbitrary: m)
  case Nil
  then show ?case by simp
next
  case (Cons m' ms)
  from Cons.prems have roles: "has_role m" "has_role m'" and rest: "list_all has_role (m' # ms)"
    by simp_all
  from roles obtain r r' where r: "map_of m ''role'' = Some r" and r': "map_of m' ''role'' = Some r'"
    by (auto simp: has_role_def)
  from Cons.IH [OF rest] obtain new t where
    new: "reformat_loop (m' # ms) = Inr new" and
    t: "new @ [last (m' # ms)] = m' # t" and
    adj: "no_adjacent_same_role (m' # t)" and
    sub: "subseq (m' # ms) (m' # t)" and
    bl: "blanks_inserted (m' # ms) (m' # t)"
    by blast
  let ?ins = "if py_eq r r'
              then (if py_eq r (VStr ''user'') then [blank_message ''assistant'']
                    else [blank_message ''user''])
              else []"
  have loop: "reformat_loop (m # m' # ms) = Inr (m # ?ins @ new)"
    using r r' new by (simp add: getitem_def)
  have shape: "(m # ?ins @ new) @ [last (m # m' # ms)] = m # (?ins @ m' # t)"
    using t by simp
  have adj': "no_adjacent_same_role (m # ?ins @ m' # t)"
  proof (cases "py_eq r r'")
    case False
    then show ?thesis using adj r r' by (simp add: same_role_def)
  next
    case eq: True
    show ?thesis
    proof (cases "py_eq r (VStr ''user'')")
      case True
      then have "r = VStr ''user''" by (simp add: py_eq_VStr_right)
      with eq have "r' = VStr ''user''" by simp
      with \<open>r = VStr ''user''\<close> show ?thesis
        using adj r r' eq by (simp add: same_role_def blank_message_def)
    next
      case False
      then have ne: "r \<noteq> VStr ''user''" by (simp add: py_eq_VStr_right)
      have "r' \<noteq> VStr ''user''"
      proof
        assume "r' = VStr ''user''"
        with eq have "r = VStr ''user''" by (simp add: py_eq_VStr_right)
        with ne show False by simp
      qed
      then show ?thesis
        using adj r r' eq False ne by (simp add: same_role_def blank_message_def py_eq_VStr_right)
    qed
  qed
  have sub': "subseq (m # m' # ms) (m # ?ins @ m' # t)"
  proof -
    from sub have "subseq (m' # ms) (?ins @ m' # t)" by (rule list_emb_append2)
    then show ?thesis by (simp del: subseq_Cons2_iff)
  qed
  have bl': "blanks_inserted (m # m' # ms) (m # ?ins @ m' # t)"
    using bl by (simp add: empty_content_def blank_message_def)
  from loop shape adj' sub' bl' show ?case by blast
qed

lemma reformat_messages_ok:
  assumes "messages \<noteq> []" "list_all has_role messages"
  shows "\<exists>new. reformat_messages messages = Inr new \<and> no_adjacent_same_role new
           \<and> subseq messages new \<and> blanks_inserted messages new"
proof -
  from assms(1) obtain m ms where ms: "messages = m # ms" by (cases messages) auto
  from reformat_loop_ok [of m ms] assms(2) ms obtain new t where
    "reformat_loop (m # ms) = Inr new" "new @ [last (m # ms)] = m # t"
    "no_adjacent_same_role (m # t)" "subseq (m # ms) (m # t)" "blanks_inserted (m # ms) (m # t)"
    by blast
  then show ?thesis
    unfolding ms reformat_messages_def by (simp del: last.simps reformat_loop.simps)
qed

lemma has_role_blank: "has_role (blank_message r)"
  by (simp add: has_role_def blank_message_def)

lemma reformat_loop_roles:
  "reformat_loop ms = Inr new \<Longrightarrow> list_all has_role ms \<Longrightarrow> list_all has_role new"
proof (induction ms arbitrary: new rule: reformat_loop.induct)
  case (1 m m' ms)
  then show ?case
    by (auto simp: has_role_blank split: sum.splits if_splits)
qed simp_all

lemma reformat_messages_roles:
  assumes "reformat_messages ms = Inr new" "list_all has_role ms"
  shows "new \<noteq> [] \<and> list_all has_role new"
proof -
  from assms(1) obtain l where l: "reformat_loop ms = Inr l" and ne: "ms \<noteq> []"
    and new: "new = l @ [last ms]"
    by (auto simp: reformat_messages_def split: sum.splits list.splits)
  from ne assms(2) have "has_role (last ms)"
    by (simp add: list_all_iff)
  with reformat_loop_roles [OF l assms(2)] new show ?thesis by simp
qed

text \<open>
  C1, as the code has it. When the text of the caught error contains one of the two
  roles-must-alternate phrases and the message list is not empty and every message has a
  \<^verbatim>\<open>"role"\<close> key, the handler rewrites the list: the rewritten list has no two
  adjacent messages with the same role, every original message appears unchanged and in
  its original order, and every inserted message has content \<^verbatim>\<open>""\<close>.
\<close>

theorem alternating_rewrite:
  assumes "roles_must_alternate e" "messages \<noteq> []" "list_all has_role messages"
  shows "\<exists>new. handle_exception e (Some messages) = Inr (Some new)
           \<and> no_adjacent_same_role new
           \<and> subseq messages new
           \<and> blanks_inserted messages new"
proof -
  from reformat_messages_ok [OF assms(2,3)] obtain new where
    "reformat_messages messages = Inr new" "no_adjacent_same_role new"
    "subseq messages new" "blanks_inserted messages new"
    by blast
  with assms(1) show ?thesis
    by (simp add: handle_exception_def roles_must_alternate_def)
qed

text \<open>
  Two user messages followed by two assistant messages: a blank assistant message and a
  blank user message are inserted.
\<close>

theorem alternating_rewrite_witness:
  "roles_must_alternate roles_error
   \<and> list_all has_role [user_message ''a'', user_message ''b'', assistant_message ''c'',
        assistant_message ''d'']
   \<and> handle_exception roles_error
        (Some [user_message ''a'', user_message ''b'', assistant_message ''c'',
               assistant_message ''d''])
      = Inr (Some [user_message ''a'', blank_message ''assistant'', user_message ''b'',
                   assistant_message ''c'', blank_message ''user'', assistant_message ''d''])
   \<and> no_adjacent_same_role
        [user_message ''a'', blank_message ''assistant'', user_message ''b'',
         assistant_message ''c'', blank_message ''user'', assistant_message ''d'']"
proof -
  have m: "roles_must_alternate roles_error"
    by (simp add: roles_must_alternate_def roles_error_def py_in_str_def sublist_Cons_right)
  have n: "[user_message ''a'', user_message ''b'', assistant_message ''c'',
            assistant_message ''d''] \<noteq> []"
    by simp
  have r: "list_all has_role [user_message ''a'', user_message ''b'', assistant_message ''c'',
        assistant_message ''d'']"
    by (simp add: has_role_def user_message_def assistant_message_def)
  have h: "handle_exception roles_error
        (Some [user_message ''a'', user_message ''b'', assistant_message ''c'',
               assistant_message ''d''])
      = Inr (Some [user_message ''a'', blank_message ''assistant'', user_message ''b'',
                   assistant_message ''c'', blank_message ''user'', assistant_message ''d''])"
    using m by (simp add: handle_exception_def roles_must_alternate_def reformat_messages_def
        getitem_def user_message_def assistant_message_def)
  show ?thesis
    using alternating_rewrite [OF m n r] m r h by auto
qed

text \<open>
  C1 as the claim states it, for every message list, fails: on the empty list
  \<^verbatim>\<open>messages[-1]\<close> raises \<^verbatim>\<open>IndexError\<close>, and on a list with a message without a
  \<^verbatim>\<open>"role"\<close> key the comparison raises \<^verbatim>\<open>KeyError\<close>; no list is produced.
\<close>

theorem rewrite_of_empty_list_counterexample:
  "roles_must_alternate roles_error
   \<and> handle_exception roles_error (Some []) = Inl IndexError
   \<and> handle_exception roles_error (Some [[(''content'', VStr ''a'')], user_message ''b''])
       = Inl (KeyError ''role'')"
  by (simp add: handle_exception_def roles_must_alternate_def roles_error_def py_in_str_def
      sublist_Cons_right reformat_messages_def getitem_def user_message_def)

lemma completion_except_cases:
  assumes "is_Exception u"
  shows "(\<exists>status_code message. completion_except env u = OpenAIError status_code message)
   \<and> (\<forall>c. status_code_attr u = Some c \<longrightarrow> completion_except env u = OpenAIError c (str_of u))
   \<and> (status_code_attr u = None \<longrightarrow>
        (\<exists>message. completion_except env u = OpenAIError (VInt 500) message))"
  using assms by (cases u) (auto split: option.splits)

lemma completion_except_uncaught: "\<not> is_Exception u \<Longrightarrow> completion_except env u = u"
  by (cases u) simp_all

lemma is_Exception_completion_except:
  "is_Exception (completion_except env u) = is_Exception u"
  by (cases u) (auto split: option.splits)

text \<open>
  C2, as the code has it. An instance of \<^verbatim>\<open>Exception\<close> that \<^verbatim>\<open>completion\<close> raises is
  an \<^verbatim>\<open>OpenAIError\<close> with a status code and a message. When the exception \<open>u\<close> that
  left the outer \<^verbatim>\<open>try\<close> is an instance of \<^verbatim>\<open>Exception\<close> and has a
  \<^verbatim>\<open>status_code\<close> attribute, the \<^verbatim>\<open>OpenAIError\<close> has that status code and the text
  of \<open>u\<close> as its message; when it has none, the status code is 500. What is not an
  instance of \<^verbatim>\<open>Exception\<close> is caught by no handler and leaves \<^verbatim>\<open>completion\<close>
  unchanged.
\<close>

theorem raised_Exception_is_OpenAIError:
  assumes "completion env a = (Raise e, attempts)"
  shows "\<exists>u. completion_try env a = (Raise u, attempts)
           \<and> (is_Exception e \<longrightarrow> (\<exists>status_code message. e = OpenAIError status_code message))
           \<and> (is_Exception u \<longrightarrow>
                (\<exists>status_code message. e = OpenAIError status_code message)
                \<and> (\<forall>c. status_code_attr u = Some c \<longrightarrow> e = OpenAIError c (str_of u))
                \<and> (status_code_attr u = None \<longrightarrow>
                     (\<exists>message. e = OpenAIError (VInt 500) message)))
           \<and> (\<not> is_Exception u \<longrightarrow> e = u)"
proof -
  from assms obtain u where u: "completion_try env a = (Raise u, attempts)"
    and e: "e = completion_except env u"
    by (auto simp: completion_def split: prod.splits outcome.splits)
  have caught: "(\<exists>status_code message. e = OpenAIError status_code message)
     \<and> (\<forall>c. status_code_attr u = Some c \<longrightarrow> e = OpenAIError c (str_of u))
     \<and> (status_code_attr u = None \<longrightarrow> (\<exists>message. e = OpenAIError (VInt 500) message))"
    if "is_Exception u"
    using completion_except_cases [OF that, of env] unfolding e .
  have uncaught: "e = u" if "\<not> is_Exception u"
    using that by (simp add: e completion_except_uncaught)
  have same: "is_Exception e = is_Exception u"
    by (simp add: e is_Exception_completion_except)
  from u caught uncaught same show ?thesis
    by (intro exI [of _ u] conjI) auto
qed

text \<open>
  A synchronous call without streaming: a rate-limit error of the vendor client with status
  429 comes out as \<^verbatim>\<open>OpenAIError(429, ...)\<close>, a connection error without a status as
  \<^verbatim>\<open>OpenAIError(500, ...)\<close>.
\<close>

theorem raised_Exception_is_OpenAIError_witness:
  "is_Exception rate_limit_error
   \<and> completion (scripted_env [rate_limit_error]) (sync_args [user_message ''hi''])
     = (Raise (OpenAIError (VInt 429) ''Error code: 429''), [Some [user_message ''hi'']])
   \<and> is_Exception connection_error
   \<and> completion (scripted_env [connection_error]) (sync_args [user_message ''hi''])
     = (Raise (OpenAIError (VInt 500) ''Traceback: Connection error.''),
        [Some [user_message ''hi'']])"
proof -
  have 1: "completion (scripted_env [rate_limit_error]) (sync_args [user_message ''hi''])
     = (Raise (OpenAIError (VInt 429) ''Error code: 429''), [Some [user_message ''hi'']])"
    by (simp add: completion_def completion_try_def prepare_messages_def sync_args_def
        scripted_env_def numeral_2_eq_2 try_body_def handle_exception_def rate_limit_error_def
        py_in_str_def sublist_Cons_right)
  have 2: "completion (scripted_env [connection_error]) (sync_args [user_message ''hi''])
     = (Raise (OpenAIError (VInt 500) ''Traceback: Connection error.''),
        [Some [user_message ''hi'']])"
    by (simp add: completion_def completion_try_def prepare_messages_def sync_args_def
        scripted_env_def numeral_2_eq_2 try_body_def handle_exception_def connection_error_def
        py_in_str_def sublist_Cons_right)
  have 3: "is_Exception rate_limit_error" "is_Exception connection_error"
    by (simp_all add: rate_limit_error_def connection_error_def)
  show ?thesis
    using raised_Exception_is_OpenAIError [OF 1] raised_Exception_is_OpenAIError [OF 2] 1 2 3
    by simp
qed

text \<open>
  C2 as the claim states it, for every exception raised, fails: a \<^verbatim>\<open>KeyboardInterrupt\<close>
  during the call of the vendor client is not an instance of \<^verbatim>\<open>Exception\<close>, no handler
  catches it, and it leaves \<^verbatim>\<open>completion\<close> as it is, not as an \<^verbatim>\<open>OpenAIError\<close>.
\<close>

theorem keyboard_interrupt_not_wrapped_counterexample:
  "completion (scripted_env [PyBaseException ''KeyboardInterrupt'' []])
       (sync_args [user_message ''hi''])
     = (Raise (PyBaseException ''KeyboardInterrupt'' []), [Some [user_message ''hi'']])"
  by (simp add: completion_def completion_try_def prepare_messages_def sync_args_def
      scripted_env_def numeral_2_eq_2 try_body_def)

lemma retry_loop_attempts:
  "length (snd (retry_loop env a n i messages attempts)) \<le> length attempts + n"
proof (induction n arbitrary: i messages attempts)
  case 0
  then show ?case by simp
next
  case (Suc n)
  show ?case
  proof (cases "try_body env a i messages")
    case (Inr r)
    then show ?thesis by simp
  next
    case (Inl e)
    show ?thesis
    proof (cases "is_Exception e")
      case False
      with Inl show ?thesis by simp
    next
      case True
      show ?thesis
      proof (cases "handle_exception e messages")
        case Inl' : (Inl e')
        with Inl True show ?thesis by simp
      next
        case (Inr messages')
        with Inl True Suc.IH [of "Suc i" messages' "attempts @ [messages]"] show ?thesis
          by simp
      qed
    qed
  qed
qed

lemma snd_completion: "snd (completion env a) = snd (completion_try env a)"
  by (simp add: completion_def split: prod.splits outcome.splits)

text \<open>
  C3. Every invocation of \<^verbatim>\<open>completion\<close> makes at most two attempts, and an attempt
  that succeeds is not repeated. When the first attempt fails with an exception that the
  handler answers with rewritten messages, the call is retried exactly once, with the
  rewritten messages, and the second attempt decides the outcome: its result is returned; a
  failure that the handler answers with another rewrite ends in \<^verbatim>\<open>None\<close> without a
  third attempt; any other failure is raised.
\<close>

theorem at_most_two_attempts:
  "length (snd (completion env a)) \<le> 2
   \<and> (prepare_messages env a = Inr messages \<longrightarrow>
        (\<forall>r. try_body env a 0 messages = Inr r \<longrightarrow>
              completion env a = (Return r, [messages])))
   \<and> (prepare_messages env a = Inr messages \<longrightarrow>
        try_body env a 0 messages = Inl e \<longrightarrow>
        is_Exception e \<longrightarrow>
        handle_exception e messages = Inr messages' \<longrightarrow>
        snd (completion env a) = [messages, messages']
        \<and> (\<forall>r. try_body env a (Suc 0) messages' = Inr r \<longrightarrow>
               completion env a = (Return r, [messages, messages']))
        \<and> (\<forall>e2. try_body env a (Suc 0) messages' = Inl e2 \<longrightarrow>
               completion env a =
                 (if is_Exception e2
                  then (case handle_exception e2 messages' of
                          Inl e' \<Rightarrow> Raise (completion_except env e')
                        | Inr messages'' \<Rightarrow> ReturnNone)
                  else Raise e2,
                  [messages, messages'])))"
proof -
  have bound: "length (snd (completion_try env a)) \<le> 2"
  proof (cases "prepare_messages env a")
    case (Inl e0)
    then show ?thesis by (simp add: completion_try_def)
  next
    case (Inr m0)
    with retry_loop_attempts [of env a 2 0 m0 "[]"] show ?thesis
      by (simp add: completion_try_def)
  qed
  have first: "completion env a = (Return r, [messages])"
    if "prepare_messages env a = Inr messages" "try_body env a 0 messages = Inr r" for r
    using that by (simp add: completion_def completion_try_def numeral_2_eq_2)
  have retried: "completion_try env a =
      (case try_body env a (Suc 0) messages' of
         Inr r \<Rightarrow> (Return r, [messages, messages'])
       | Inl e2 \<Rightarrow>
           (if is_Exception e2
            then (case handle_exception e2 messages' of
                    Inl e' \<Rightarrow> (Raise e', [messages, messages'])
                  | Inr messages'' \<Rightarrow> (ReturnNone, [messages, messages']))
            else (Raise e2, [messages, messages'])))"
    if "prepare_messages env a = Inr messages" "try_body env a 0 messages = Inl e"
      "is_Exception e" "handle_exception e messages = Inr messages'"
    using that by (simp add: completion_try_def numeral_2_eq_2 split: sum.splits)
  have second: "snd (completion env a) = [messages, messages']
        \<and> (\<forall>r. try_body env a (Suc 0) messages' = Inr r \<longrightarrow>
               completion env a = (Return r, [messages, messages']))
        \<and> (\<forall>e2. try_body env a (Suc 0) messages' = Inl e2 \<longrightarrow>
               completion env a =
                 (if is_Exception e2
                  then (case handle_exception e2 messages' of
                          Inl e' \<Rightarrow> Raise (completion_except env e')
                        | Inr messages'' \<Rightarrow> ReturnNone)
                  else Raise e2,
                  [messages, messages']))"
    if "prepare_messages env a = Inr messages" "try_body env a 0 messages = Inl e"
      "is_Exception e" "handle_exception e messages = Inr messages'"
    using retried [OF that]
    by (auto simp: completion_def completion_except_uncaught split: sum.splits)
  from bound first second show ?thesis
    by (simp add: snd_completion)
qed

text \<open>
  A provider that rejects the first attempt only: the second attempt carries the rewritten
  list and its response is returned. A provider that rejects both: \<^verbatim>\<open>None\<close> after two
  attempts.
\<close>

theorem at_most_two_attempts_witness:
  "prepare_messages (scripted_env [roles_error])
       (sync_args [user_message ''a'', user_message ''b''])
     = Inr (Some [user_message ''a'', user_message ''b''])
   \<and> try_body (scripted_env [roles_error])
       (sync_args [user_message ''a'', user_message ''b'']) 0
       (Some [user_message ''a'', user_message ''b''])
     = Inl roles_error
   \<and> is_Exception roles_error
   \<and> handle_exception roles_error (Some [user_message ''a'', user_message ''b''])
     = Inr (Some [user_message ''a'', blank_message ''assistant'', user_message ''b''])
   \<and> try_body (scripted_env [roles_error])
       (sync_args [user_message ''a'', user_message ''b'']) (Suc 0)
       (Some [user_message ''a'', blank_message ''assistant'', user_message ''b''])
     = Inr ''response''
   \<and> completion (scripted_env [roles_error])
       (sync_args [user_message ''a'', user_message ''b''])
     = (Return ''response'',
        [Some [user_message ''a'', user_message ''b''],
         Some [user_message ''a'', blank_message ''assistant'', user_message ''b'']])
   \<and> completion (scripted_env [roles_error, roles_error])
       (sync_args [user_message ''a'', user_message ''b''])
     = (ReturnNone,
        [Some [user_message ''a'', user_message ''b''],
         Some [user_message ''a'', blank_message ''assistant'', user_message ''b'']])"
proof -
  let ?env = "scripted_env [roles_error]"
  let ?env2 = "scripted_env [roles_error, roles_error]"
  let ?a = "sync_args [user_message ''a'', user_message ''b'']"
  let ?m = "Some [user_message ''a'', user_message ''b'']"
  let ?m' = "Some [user_message ''a'', blank_message ''assistant'', user_message ''b'']"
  have p: "prepare_messages ?env ?a = Inr ?m" "prepare_messages ?env2 ?a = Inr ?m"
    by (simp_all add: prepare_messages_def sync_args_def)
  have t: "try_body ?env ?a 0 ?m = Inl roles_error" "try_body ?env2 ?a 0 ?m = Inl roles_error"
    by (simp_all add: try_body_def sync_args_def scripted_env_def)
  have x: "is_Exception roles_error"
    by (simp add: roles_error_def)
  have h: "handle_exception roles_error ?m = Inr ?m'"
    by (simp add: handle_exception_def roles_error_def py_in_str_def sublist_Cons_right
        reformat_messages_def getitem_def user_message_def)
  have h2: "handle_exception roles_error ?m'
      = Inr (Some [user_message ''a'', blank_message ''assistant'', user_message ''b''])"
    by (simp add: handle_exception_def roles_error_def py_in_str_def sublist_Cons_right
        reformat_messages_def getitem_def user_message_def blank_message_def)
  have t1: "try_body ?env ?a (Suc 0) ?m' = Inr ''response''"
    by (simp add: try_body_def sync_args_def scripted_env_def)
  have t2: "try_body ?env2 ?a (Suc 0) ?m' = Inl roles_error"
    by (simp add: try_body_def sync_args_def scripted_env_def)
  have c1: "completion ?env ?a = (Return ''response'', [?m, ?m'])"
    using at_most_two_attempts [of ?env ?a ?m roles_error ?m'] p(1) t(1) x h t1
    by blast
  have c2: "completion ?env2 ?a = (ReturnNone, [?m, ?m'])"
    using at_most_two_attempts [of ?env2 ?a ?m roles_error ?m'] p(2) t(2) x h h2 t2
    by simp
  from p(1) t(1) x h t1 c1 c2 show ?thesis by simp
qed

text \<open>
  C4. The handler gives messages for another attempt only when the text of the exception
  contains one of the three vendor phrases and \<^verbatim>\<open>messages\<close> is not \<^verbatim>\<open>None\<close>. For an
  exception whose text contains none of them (or with \<^verbatim>\<open>messages\<close> being \<^verbatim>\<open>None\<close>)
  nothing is rewritten: the handler raises the same exception, and the loop ends with it
  after the attempt that failed.
\<close>

theorem retry_only_on_vendor_phrase:
  "(handle_exception e messages = Inr messages' \<longrightarrow>
      (roles_must_alternate e \<or> last_must_be_user e) \<and> messages \<noteq> None)
   \<and> (\<not> roles_must_alternate e \<and> \<not> last_must_be_user e \<or> messages = None \<longrightarrow>
        handle_exception e messages = Inl e
        \<and> (try_body env a i messages = Inl e \<longrightarrow>
             retry_loop env a (Suc n) i messages attempts = (Raise e, attempts @ [messages])))"
proof -
  have only: "(roles_must_alternate e \<or> last_must_be_user e) \<and> messages \<noteq> None"
    if "handle_exception e messages = Inr messages'"
    using that
    by (auto simp: handle_exception_def roles_must_alternate_def last_must_be_user_def
        split: if_splits sum.splits)
  have same: "handle_exception e messages = Inl e"
    if "\<not> roles_must_alternate e \<and> \<not> last_must_be_user e \<or> messages = None"
    using that
    by (auto simp: handle_exception_def roles_must_alternate_def last_must_be_user_def)
  have stop: "retry_loop env a (Suc n) i messages attempts = (Raise e, attempts @ [messages])"
    if "\<not> roles_must_alternate e \<and> \<not> last_must_be_user e \<or> messages = None"
      "try_body env a i messages = Inl e"
    using same [OF that(1)] that(2) by simp
  from only same stop show ?thesis by blast
qed

text \<open>
  A rate-limit error is raised again after one attempt; a roles-must-alternate error is
  answered with a rewritten list.
\<close>

theorem retry_only_on_vendor_phrase_witness:
  "\<not> roles_must_alternate rate_limit_error
   \<and> \<not> last_must_be_user rate_limit_error
   \<and> handle_exception rate_limit_error (Some [user_message ''a'', user_message ''b''])
       = Inl rate_limit_error
   \<and> try_body (scripted_env [rate_limit_error]) (sync_args [user_message ''a'', user_message ''b''])
        0 (Some [user_message ''a'', user_message ''b''])
       = Inl rate_limit_error
   \<and> retry_loop (scripted_env [rate_limit_error]) (sync_args [user_message ''a'', user_message ''b''])
        (Suc (Suc 0)) 0 (Some [user_message ''a'', user_message ''b'']) []
       = (Raise rate_limit_error, [Some [user_message ''a'', user_message ''b'']])
   \<and> handle_exception roles_error (Some [user_message ''a'', user_message ''b''])
       = Inr (Some [user_message ''a'', blank_message ''assistant'', user_message ''b''])
   \<and> roles_must_alternate roles_error"
proof -
  let ?env = "scripted_env [rate_limit_error]"
  let ?a = "sync_args [user_message ''a'', user_message ''b'']"
  let ?m = "Some [user_message ''a'', user_message ''b'']"
  have n: "\<not> roles_must_alternate rate_limit_error \<and> \<not> last_must_be_user rate_limit_error"
    by (simp add: roles_must_alternate_def last_must_be_user_def rate_limit_error_def
        py_in_str_def sublist_Cons_right)
  have t: "try_body ?env ?a 0 ?m = Inl rate_limit_error"
    by (simp add: try_body_def sync_args_def scripted_env_def)
  have h: "handle_exception roles_error ?m
     = Inr (Some [user_message ''a'', blank_message ''assistant'', user_message ''b''])"
    by (simp add: handle_exception_def roles_error_def py_in_str_def sublist_Cons_right
        reformat_messages_def getitem_def user_message_def)
  have r: "handle_exception rate_limit_error ?m = Inl rate_limit_error
      \<and> retry_loop ?env ?a (Suc (Suc 0)) 0 ?m [] = (Raise rate_limit_error, [] @ [?m])"
    using retry_only_on_vendor_phrase [of rate_limit_error ?m None ?env ?a 0 "Suc 0" "[]"] n t
    by blast
  have m: "roles_must_alternate roles_error"
    by (simp add: roles_must_alternate_def roles_error_def py_in_str_def sublist_Cons_right)
  from r n t h m show ?thesis
    by (simp del: retry_loop.simps)
qed

lemma handler_gives_roles:
  assumes "handle_exception e (Some messages) = Inr messages'" "list_all has_role messages"
  shows "\<exists>new. messages' = Some new \<and> new \<noteq> [] \<and> list_all has_role new"
proof (cases "roles_must_alternate e")
  case True
  with assms(1) obtain new where "reformat_messages messages = Inr new" "messages' = Some new"
    by (auto simp: handle_exception_def roles_must_alternate_def split: sum.splits)
  with reformat_messages_roles [OF _ assms(2)] show ?thesis by simp
next
  case False
  with assms(1) have "messages' = Some (messages @ [blank_message ''user''])"
    by (auto simp: handle_exception_def roles_must_alternate_def split: if_splits)
  with assms(2) show ?thesis by (simp add: has_role_blank)
qed

lemma handler_succeeds:
  assumes "roles_must_alternate e \<or> last_must_be_user e" "new \<noteq> []" "list_all has_role new"
  shows "\<exists>messages'. handle_exception e (Some new) = Inr messages'"
proof (cases "roles_must_alternate e")
  case True
  from reformat_messages_ok [OF assms(2,3)] obtain out where "reformat_messages new = Inr out"
    by blast
  with True show ?thesis
    by (simp add: handle_exception_def roles_must_alternate_def)
next
  case False
  with assms(1) show ?thesis
    by (simp add: handle_exception_def roles_must_alternate_def last_must_be_user_def)
qed

text \<open>
  C9, as the code has it. When every message has a \<^verbatim>\<open>"role"\<close> key, the first attempt
  fails with an exception that the handler catches and answers by a rewrite, and the
  second attempt fails with an exception that the handler catches and whose text contains
  one of the vendor phrases, \<^verbatim>\<open>completion\<close> raises nothing and returns \<^verbatim>\<open>None\<close>
  after the two attempts.
\<close>

theorem returns_None_after_two_matched_failures:
  assumes "prepare_messages env a = Inr (Some messages)"
    and "list_all has_role messages"
    and "try_body env a 0 (Some messages) = Inl e1"
    and "handle_exception e1 (Some messages) = Inr messages1"
    and "try_body env a (Suc 0) messages1 = Inl e2"
    and "roles_must_alternate e2 \<or> last_must_be_user e2"
    and "is_Exception e1" "is_Exception e2"
  shows "completion env a = (ReturnNone, [Some messages, messages1])"
proof -
  from handler_gives_roles [OF assms(4,2)] obtain new where
    new: "messages1 = Some new" "new \<noteq> []" "list_all has_role new"
    by blast
  from handler_succeeds [OF assms(6) new(2,3)] obtain messages2 where
    "handle_exception e2 (Some new) = Inr messages2"
    by blast
  with assms new(1) show ?thesis
    by (simp add: completion_def completion_try_def numeral_2_eq_2)
qed

text \<open>
  Two user messages and a provider that answers both attempts with the roles-must-alternate
  error.
\<close>

theorem returns_None_after_two_matched_failures_witness:
  "list_all has_role [user_message ''a'', user_message ''b'']
   \<and> roles_must_alternate roles_error
   \<and> is_Exception roles_error
   \<and> completion (scripted_env [roles_error, roles_error])
        (sync_args [user_message ''a'', user_message ''b''])
     = (ReturnNone,
        [Some [user_message ''a'', user_message ''b''],
         Some [user_message ''a'', blank_message ''assistant'', user_message ''b'']])"
proof -
  let ?env = "scripted_env [roles_error, roles_error]"
  let ?a = "sync_args [user_message ''a'', user_message ''b'']"
  let ?m1 = "Some [user_message ''a'', blank_message ''assistant'', user_message ''b'']"
  have p: "prepare_messages ?env ?a = Inr (Some [user_message ''a'', user_message ''b''])"
    by (simp add: prepare_messages_def sync_args_def)
  have r: "list_all has_role [user_message ''a'', user_message ''b'']"
    by (simp add: has_role_def user_message_def)
  have t: "try_body ?env ?a 0 (Some [user_message ''a'', user_message ''b'']) = Inl roles_error"
    by (simp add: try_body_def sync_args_def scripted_env_def)
  have h: "handle_exception roles_error (Some [user_message ''a'', user_message ''b'']) = Inr ?m1"
    by (simp add: handle_exception_def roles_error_def py_in_str_def sublist_Cons_right
        reformat_messages_def getitem_def user_message_def)
  have t2: "try_body ?env ?a (Suc 0) ?m1 = Inl roles_error"
    by (simp add: try_body_def sync_args_def scripted_env_def)
  have m: "roles_must_alternate roles_error"
    by (simp add: roles_must_alternate_def roles_error_def py_in_str_def sublist_Cons_right)
  have x: "is_Exception roles_error"
    by (simp add: roles_error_def)
  show ?thesis
    using returns_None_after_two_matched_failures [OF p r t h t2 disjI1 [OF m] x x] r m x
    by simp
qed

text \<open>
  C9 as the claim states it fails when the second rewrite itself raises: a message without
  a \<^verbatim>\<open>"role"\<close> key, a first failure with the last-message phrase and a second with the
  roles-must-alternate phrase end in \<^verbatim>\<open>OpenAIError(500, ...)\<close> from the
  \<^verbatim>\<open>KeyError\<close>, not in a return of \<^verbatim>\<open>None\<close>.
\<close>

theorem second_rewrite_raises_counterexample:
  "last_must_be_user last_role_error
   \<and> roles_must_alternate roles_error
   \<and> completion (scripted_env [last_role_error, roles_error])
        (sync_args [[(''content'', VStr ''hi'')]])
     = (Raise (OpenAIError (VInt 500) (''Traceback: '' @ str_of (KeyError ''role''))),
        [Some [[(''content'', VStr ''hi'')]],
         Some [[(''content'', VStr ''hi'')], blank_message ''user'']])"
  by (simp add: completion_def completion_try_def prepare_messages_def sync_args_def
      scripted_env_def numeral_2_eq_2 try_body_def handle_exception_def roles_error_def
      last_role_error_def roles_must_alternate_def last_must_be_user_def
      py_in_str_def sublist_Cons_right reformat_messages_def getitem_def KeyError_def)

section \<open>Properties of the text completion reshaping\<close>

lemma length_choice_loop: "length (choice_loop idx cs) = length cs"
  by (induction cs arbitrary: idx) simp_all

lemma nth_choice_loop:
  "i < length cs \<Longrightarrow>
   choice_loop idx cs ! i =
     \<lparr>choice_finish_reason = tc_finish_reason (cs ! i),
      choice_index = idx + i,
      choice_message = \<lparr>msg_content = tc_text (cs ! i), msg_role = VStr ''assistant''\<rparr>\<rparr>"
proof (induction cs arbitrary: idx i)
  case Nil
  then show ?case by simp
next
  case (Cons c cs)
  show ?case
  proof (cases i)
    case 0
    then show ?thesis by simp
  next
    case (Suc j)
    with Cons.prems have "j < length cs" by simp
    from Cons.IH [OF this, of "Suc idx"] Suc show ?thesis by simp
  qed
qed

text \<open>
  C6. \<^verbatim>\<open>convert_to_chat_model_response_object\<close> raises when either argument is
  \<^verbatim>\<open>None\<close>. Otherwise it returns the model response with one choice for each choice of
  the payload: the \<open>i\<close>-th has index \<open>i\<close>, role \<^verbatim>\<open>"assistant"\<close>, the text of the
  payload's \<open>i\<close>-th choice as content and its finish reason; \<^verbatim>\<open>usage\<close>, \<^verbatim>\<open>id\<close> and
  \<^verbatim>\<open>model\<close> are those of the payload where it has them and stay as they were where not.
\<close>

theorem convert_copies_payload:
  "(response_object = None \<or> model_response_object = None \<longrightarrow>
      convert_to_chat_model_response_object response_object model_response_object
        = Inl ValueError)
   \<and> (response_object = Some r \<and> model_response_object = Some m \<longrightarrow>
        (\<exists>m'. convert_to_chat_model_response_object response_object model_response_object
                = Inr m'
           \<and> length (mr_choices m') = length (ro_choices r)
           \<and> (\<forall>i < length (ro_choices r).
                 choice_index (mr_choices m' ! i) = i
                 \<and> msg_role (choice_message (mr_choices m' ! i)) = VStr ''assistant''
                 \<and> msg_content (choice_message (mr_choices m' ! i)) = tc_text (ro_choices r ! i)
                 \<and> choice_finish_reason (mr_choices m' ! i)
                     = tc_finish_reason (ro_choices r ! i))
           \<and> mr_usage m' = (case ro_usage r of Some u \<Rightarrow> u | None \<Rightarrow> mr_usage m)
           \<and> mr_id m' = (case ro_id r of Some i \<Rightarrow> i | None \<Rightarrow> mr_id m)
           \<and> mr_model m' = (case ro_model r of Some md \<Rightarrow> md | None \<Rightarrow> mr_model m)))"
  by (auto simp: convert_to_chat_model_response_object_def Let_def length_choice_loop
      nth_choice_loop split: option.splits)

text \<open>
  A missing payload raises; a payload of two choices with usage and id but no model is
  copied, the model of the envelope staying as it was.
\<close>

theorem convert_copies_payload_witness:
  "convert_to_chat_model_response_object None
       (Some \<lparr>mr_choices = [], mr_usage = VNone, mr_id = VStr ''chatcmpl-0'',
              mr_model = VNone, mr_original_response = None\<rparr>)
     = Inl ValueError
   \<and> convert_to_chat_model_response_object
       (Some \<lparr>ro_choices = [\<lparr>tc_text = VStr ''Hello'', tc_finish_reason = VStr ''stop''\<rparr>,
                            \<lparr>tc_text = VStr ''Hi'', tc_finish_reason = VStr ''length''\<rparr>],
              ro_usage = Some (VObject 9), ro_id = Some (VStr ''cmpl-1''), ro_model = None\<rparr>)
       (Some \<lparr>mr_choices = [], mr_usage = VNone, mr_id = VStr ''chatcmpl-0'',
              mr_model = VStr ''davinci'', mr_original_response = None\<rparr>)
     = Inr \<lparr>mr_choices =
              [\<lparr>choice_finish_reason = VStr ''stop'', choice_index = 0,
                choice_message = \<lparr>msg_content = VStr ''Hello'', msg_role = VStr ''assistant''\<rparr>\<rparr>,
               \<lparr>choice_finish_reason = VStr ''length'', choice_index = 1,
                choice_message = \<lparr>msg_content = VStr ''Hi'', msg_role = VStr ''assistant''\<rparr>\<rparr>],
            mr_usage = VObject 9, mr_id = VStr ''cmpl-1'', mr_model = VStr ''davinci'',
            mr_original_response =
              Some \<lparr>ro_choices = [\<lparr>tc_text = VStr ''Hello'', tc_finish_reason = VStr ''stop''\<rparr>,
                                  \<lparr>tc_text = VStr ''Hi'', tc_finish_reason = VStr ''length''\<rparr>],
                    ro_usage = Some (VObject 9), ro_id = Some (VStr ''cmpl-1''),
                    ro_model = None\<rparr>\<rparr>"
proof -
  let ?m = "\<lparr>mr_choices = [], mr_usage = VNone, mr_id = VStr ''chatcmpl-0'',
              mr_model = VStr ''davinci'', mr_original_response = None\<rparr>"
  let ?r = "\<lparr>ro_choices = [\<lparr>tc_text = VStr ''Hello'', tc_finish_reason = VStr ''stop''\<rparr>,
                            \<lparr>tc_text = VStr ''Hi'', tc_finish_reason = VStr ''length''\<rparr>],
              ro_usage = Some (VObject 9), ro_id = Some (VStr ''cmpl-1''), ro_model = None\<rparr>"
  have e: "convert_to_chat_model_response_object (Some ?r) (Some ?m) =
     Inr \<lparr>mr_choices =
              [\<lparr>choice_finish_reason = VStr ''stop'', choice_index = 0,
                choice_message = \<lparr>msg_content = VStr ''Hello'', msg_role = VStr ''assistant''\<rparr>\<rparr>,
               \<lparr>choice_finish_reason = VStr ''length'', choice_index = 1,
                choice_message = \<lparr>msg_content = VStr ''Hi'', msg_role = VStr ''assistant''\<rparr>\<rparr>],
            mr_usage = VObject 9, mr_id = VStr ''cmpl-1'', mr_model = VStr ''davinci'',
            mr_original_response = Some ?r\<rparr>"
    by (simp add: convert_to_chat_model_response_object_def)
  show ?thesis
    using convert_copies_payload [of None
        "Some \<lparr>mr_choices = [], mr_usage = VNone, mr_id = VStr ''chatcmpl-0'',
              mr_model = VNone, mr_original_response = None\<rparr>"]
      convert_copies_payload [of "Some ?r" "Some ?m" ?r ?m] e
    by simp
qed

end
